theory Spec2Isabelle
  imports Complex_Main
begin

section \<open>Values, errors and the floating-point limits\<close>

text \<open>
  The C++ type \<open>double\<close> is read as \<open>real\<close>: arithmetic is exact, there is no
  rounding, no infinity and no NaN. The one place where the rounding of a double
  operation decides an integer, the quotient that \<open>reset\<close> converts to \<open>int\<close>,
  takes the double division as a parameter instead. The template parameter \<open>T\<close> of the function
  classes is a fixed-size Eigen vector; it is read as any real vector space, where
  \<open>v * d\<close> (vector times double) is \<open>d *\<^sub>R v\<close> and \<open>setZero\<close> yields \<open>0\<close>.

  \<open>OutOfDomain lo t hi\<close> is the exception of \<open>mc_rtc::log::error_and_throw\<close> in
  \<open>PiecewiseFunc::checkArg\<close>; its message prints the lower limit, the argument and
  the last key, in this order. \<open>LengthError\<close> is \<open>std::length_error\<close> of
  \<open>std::vector::assign\<close>. \<open>UndefinedBehavior\<close> marks the executions C++ leaves
  undefined: dereferencing \<open>rbegin()\<close> or \<open>end()\<close> of an empty map, indexing an
  array below zero, dereferencing a null pointer, converting an unrepresentable
  double to \<open>int\<close>.
\<close>

datatype error = OutOfDomain real real real | LengthError | UndefinedBehavior

definition double_max :: real where
  \<comment> \<open>\<open>std::numeric_limits<double>::max()\<close>\<close>
  "double_max = 2 ^ 1024 - 2 ^ 971"

definition double_lowest :: real where
  \<comment> \<open>\<open>std::numeric_limits<double>::lowest()\<close>\<close>
  "double_lowest = - double_max"

section \<open>Func: the abstract function\<close>

text \<open>
  An object of a class derived from \<open>Func<T>\<close> is the record of its four virtual
  methods. \<open>func_call\<close> is \<open>operator()\<close>.
\<close>

record 'a Func =
  func_call :: "real \<Rightarrow> error + 'a"
  func_derivative :: "real \<Rightarrow> int \<Rightarrow> error + 'a"
  func_domainLowerLimit :: real
  func_domainUpperLimit :: real

definition Func_domainLowerLimit :: real where
  "Func_domainLowerLimit = double_lowest"

definition Func_domainUpperLimit :: real where
  "Func_domainUpperLimit = double_max"

section \<open>Polynomial and Constant\<close>

text \<open>
  \<open>Polynomial<T, Order>\<close>: the template argument \<open>Order\<close>, the array
  \<open>coeff_\<close> of \<open>Order + 1\<close> coefficients and the offset \<open>t0_\<close>.
\<close>

record 'a Polynomial =
  Order :: nat
  coeff :: "'a list"
  t0 :: real

definition Polynomial_wf :: "'a Polynomial \<Rightarrow> bool" where
  \<comment> \<open>the size of \<open>std::array<T, Order + 1>\<close>\<close>
  "Polynomial_wf p = (length (coeff p) = Order p + 1)"

definition Polynomial_order :: "'a Polynomial \<Rightarrow> int" where
  "Polynomial_order p = int (Order p)"

definition Polynomial_call :: "('a::real_vector) Polynomial \<Rightarrow> real \<Rightarrow> 'a" where
  "Polynomial_call p t =
     fold (\<lambda>i ret. ret + ((t - t0 p) ^ (i + 1)) *\<^sub>R (coeff p ! (i + 1)))
          [0..<Order p] (coeff p ! 0)"

definition Polynomial_derivative ::
  "('a::real_vector) Polynomial \<Rightarrow> real \<Rightarrow> int \<Rightarrow> error + 'a" where
  "Polynomial_derivative p t derivative_order =
     (if derivative_order > int (Order p) then Inr 0
      else if derivative_order < 0 then Inl UndefinedBehavior
      else
        let k = nat derivative_order;
            ret0 = fold (\<lambda>j ret. real (k - j) *\<^sub>R ret) [0..<k - 1] (coeff p ! k)
        in Inr (fold (\<lambda>i ret.
                  ret + fold (\<lambda>j term. real (i + 1 + k - j) *\<^sub>R term) [0..<k]
                          (((t - t0 p) ^ (i + 1)) *\<^sub>R (coeff p ! (i + 1 + k))))
                [0..<Order p - k] ret0))"

definition Polynomial_Func :: "('a::real_vector) Polynomial \<Rightarrow> 'a Func" where
  "Polynomial_Func p =
     \<lparr>func_call = (\<lambda>t. Inr (Polynomial_call p t)),
      func_derivative = Polynomial_derivative p,
      func_domainLowerLimit = Func_domainLowerLimit,
      func_domainUpperLimit = Func_domainUpperLimit\<rparr>"

definition Constant :: "'a \<Rightarrow> 'a Polynomial" where
  "Constant v = \<lparr>Order = 0, coeff = [v], t0 = 0\<rparr>"

definition Constant_call :: "('a::real_vector) Polynomial \<Rightarrow> real \<Rightarrow> 'a" where
  "Constant_call c t = Polynomial_call c t"

section \<open>PiecewiseFunc\<close>

text \<open>
  \<open>std::map<double, std::shared_ptr<Func<T>>>\<close> is the list of its entries in
  key order. \<open>map_insert\<close> is \<open>std::map::insert\<close>, which keeps an existing entry
  and drops the new one when the key is present; \<open>map_lower_bound\<close> is the first
  entry whose key is not less than the argument (\<open>None\<close> is \<open>end()\<close>);
  \<open>map_rbegin\<close> is the last entry (\<open>None\<close> for the empty map, where
  \<open>rbegin()\<close> must not be dereferenced).
\<close>

fun map_insert :: "real \<Rightarrow> 'v \<Rightarrow> (real \<times> 'v) list \<Rightarrow> (real \<times> 'v) list" where
  "map_insert k v [] = [(k, v)]"
| "map_insert k v ((k', v') # m) =
     (if k < k' then (k, v) # (k', v') # m
      else if k = k' then (k', v') # m
      else (k', v') # map_insert k v m)"

fun map_lower_bound :: "real \<Rightarrow> (real \<times> 'v) list \<Rightarrow> (real \<times> 'v) option" where
  "map_lower_bound t [] = None"
| "map_lower_bound t ((k, v) # m) = (if k < t then map_lower_bound t m else Some (k, v))"

fun map_rbegin :: "(real \<times> 'v) list \<Rightarrow> (real \<times> 'v) option" where
  "map_rbegin [] = None"
| "map_rbegin [e] = Some e"
| "map_rbegin (e # e' # m) = map_rbegin (e' # m)"

definition map_ordered :: "(real \<times> 'v) list \<Rightarrow> bool" where
  \<comment> \<open>the representation invariant of \<open>std::map\<close>: keys strictly increasing\<close>
  "map_ordered m = sorted_wrt (<) (map fst m)"

record 'a PiecewiseFunc =
  funcs :: "(real \<times> 'a Func) list"
  tLowerLimit :: real

definition PiecewiseFunc_new :: "'a PiecewiseFunc" where
  "PiecewiseFunc_new = \<lparr>funcs = [], tLowerLimit = double_lowest\<rparr>"

definition checkArg :: "'a PiecewiseFunc \<Rightarrow> real \<Rightarrow> error + unit" where
  "checkArg pf t =
     (if t < tLowerLimit pf then
        (case map_rbegin (funcs pf) of
           None \<Rightarrow> Inl UndefinedBehavior
         | Some (k, f) \<Rightarrow> Inl (OutOfDomain (tLowerLimit pf) t k))
      else
        (case map_rbegin (funcs pf) of
           None \<Rightarrow> Inl UndefinedBehavior
         | Some (k, f) \<Rightarrow>
             if k < t then Inl (OutOfDomain (tLowerLimit pf) t k) else Inr ()))"

definition PiecewiseFunc_call :: "'a PiecewiseFunc \<Rightarrow> real \<Rightarrow> error + 'a" where
  "PiecewiseFunc_call pf t =
     (case checkArg pf t of
        Inl e \<Rightarrow> Inl e
      | Inr u \<Rightarrow>
          (case map_lower_bound t (funcs pf) of
             None \<Rightarrow> Inl UndefinedBehavior
           | Some (k, f) \<Rightarrow> func_call f t))"

definition PiecewiseFunc_derivative :: "'a PiecewiseFunc \<Rightarrow> real \<Rightarrow> int \<Rightarrow> error + 'a" where
  "PiecewiseFunc_derivative pf t order =
     (case checkArg pf t of
        Inl e \<Rightarrow> Inl e
      | Inr u \<Rightarrow>
          (case map_lower_bound t (funcs pf) of
             None \<Rightarrow> Inl UndefinedBehavior
           | Some (k, f) \<Rightarrow> func_derivative f t order))"

definition domainLowerLimit :: "'a PiecewiseFunc \<Rightarrow> real" where
  "domainLowerLimit pf = tLowerLimit pf"

definition domainUpperLimit :: "'a PiecewiseFunc \<Rightarrow> real" where
  "domainUpperLimit pf =
     (case map_rbegin (funcs pf) of None \<Rightarrow> double_max | Some (k, f) \<Rightarrow> k)"

definition clearFuncs :: "'a PiecewiseFunc \<Rightarrow> 'a PiecewiseFunc" where
  "clearFuncs pf = pf\<lparr>funcs := [], tLowerLimit := double_lowest\<rparr>"

definition appendFunc :: "real \<Rightarrow> 'a Func \<Rightarrow> 'a PiecewiseFunc \<Rightarrow> 'a PiecewiseFunc" where
  "appendFunc t func pf = pf\<lparr>funcs := map_insert t func (funcs pf)\<rparr>"

definition setDomainLowerLimit :: "real \<Rightarrow> 'a PiecewiseFunc \<Rightarrow> 'a PiecewiseFunc" where
  "setDomainLowerLimit t pf = pf\<lparr>tLowerLimit := t\<rparr>"

definition PiecewiseFunc_Func :: "'a PiecewiseFunc \<Rightarrow> 'a Func" where
  "PiecewiseFunc_Func pf =
     \<lparr>func_call = PiecewiseFunc_call pf,
      func_derivative = PiecewiseFunc_derivative pf,
      func_domainLowerLimit = domainLowerLimit pf,
      func_domainUpperLimit = domainUpperLimit pf\<rparr>"

definition appendAll :: "(real \<times> 'a Func) list \<Rightarrow> 'a PiecewiseFunc \<Rightarrow> 'a PiecewiseFunc" where
  \<comment> \<open>a run of \<open>appendFunc\<close> calls, in the order of the list\<close>
  "appendAll xs pf = fold (\<lambda>(t, func) pf'. appendFunc t func pf') xs pf"

section \<open>CentroidalManagerDdpZmp\<close>

text \<open>
  The solver classes \<open>CCC::DdpZmp\<close> and \<open>nmpc_ddp::DDPSolver\<close> belong to external
  libraries. The manager reads and writes three of their members:
  \<open>config().horizon_steps\<close>, \<open>config().max_iter\<close> and \<open>controlData().u_list\<close>.
  The constructor \<open>DdpZmp(mass, horizon_dt, horizon_steps)\<close> stores its arguments
  and starts with an empty control sequence. \<open>planOnce\<close> is a parameter of the
  model, as are \<open>CentroidalManager::reset\<close> of the base class and
  \<open>FootManager::calcRefZmp\<close>.

  The division of two doubles is a parameter \<open>double_div\<close> of \<open>reset\<close>:
  \<open>double_div a b\<close> is the quotient as double arithmetic rounds it, and \<open>None\<close>
  when the quotient is an infinity or a NaN, which \<open>static_cast<int>\<close> leaves
  undefined.
\<close>

type_synonym Vector3d = "real \<times> real \<times> real"

type_synonym Vector2d = "real \<times> real"

type_synonym InputDimVector = "real \<times> real \<times> real"

definition vec_x :: "Vector3d \<Rightarrow> real" where
  "vec_x v = fst v"

definition vec_y :: "Vector3d \<Rightarrow> real" where
  "vec_y v = fst (snd v)"

definition constants_g :: real where
  \<comment> \<open>\<open>CCC::constants::g\<close>\<close>
  "constants_g = 980665 / 100000"

record Configuration =
  refComZ :: real
  horizonDuration :: real
  horizonDt :: real
  ddpMaxIter :: int

record DdpZmp =
  ddp_mass :: real
  ddp_horizon_dt :: real
  horizon_steps :: int
  max_iter :: int
  controlData_u_list :: "InputDimVector list"

record InitialParam =
  pos :: Vector3d
  vel :: Vector3d
  u_list :: "InputDimVector list"

record PlannedData =
  zmp :: Vector2d
  force_z :: real

record RefData =
  ref_zmp :: Vector2d
  ref_com_z :: real

record CentroidalManagerDdpZmp =
  config :: Configuration
  robotMass :: real
  mpcCom :: Vector3d
  mpcComVel :: Vector3d
  ddp :: "DdpZmp option"
  plannedZmp :: Vector3d
  plannedForceZ :: real

definition int_min :: int where
  "int_min = - (2 ^ 31)"

definition int_max :: int where
  "int_max = 2 ^ 31 - 1"

definition trunc_to_zero :: "real \<Rightarrow> int" where
  \<comment> \<open>rounding toward zero\<close>
  "trunc_to_zero x = (if 0 \<le> x then \<lfloor>x\<rfloor> else \<lceil>x\<rceil>)"

definition double_to_int :: "real \<Rightarrow> error + int" where
  \<comment> \<open>\<open>static_cast<int>\<close> of a double: the fractional part is discarded; the
      conversion is undefined when the truncated value does not fit\<close>
  "double_to_int x =
     (if int_min \<le> trunc_to_zero x \<and> trunc_to_zero x \<le> int_max then Inr (trunc_to_zero x)
      else Inl UndefinedBehavior)"

definition DdpZmp_new :: "real \<Rightarrow> real \<Rightarrow> int \<Rightarrow> DdpZmp" where
  \<comment> \<open>the value of \<open>max_iter\<close> set here is never read: \<open>reset\<close> overwrites it\<close>
  "DdpZmp_new mass horizon_dt steps =
     \<lparr>ddp_mass = mass, ddp_horizon_dt = horizon_dt, horizon_steps = steps,
      max_iter = 1, controlData_u_list = []\<rparr>"

definition reset ::
  "(real \<Rightarrow> real \<Rightarrow> real option)
   \<Rightarrow> (CentroidalManagerDdpZmp \<Rightarrow> CentroidalManagerDdpZmp) \<Rightarrow> CentroidalManagerDdpZmp
   \<Rightarrow> error + CentroidalManagerDdpZmp" where
  "reset double_div CentroidalManager_reset m0 =
     (let m = CentroidalManager_reset m0 in
      case double_div (horizonDuration (config m)) (horizonDt (config m)) of
        None \<Rightarrow> Inl UndefinedBehavior
      | Some q \<Rightarrow>
          (case double_to_int q of
             Inl e \<Rightarrow> Inl e
           | Inr steps \<Rightarrow>
               Inr (m\<lparr>ddp := Some ((DdpZmp_new (robotMass m) (horizonDt (config m)) steps)
                                      \<lparr>max_iter := ddpMaxIter (config m)\<rparr>)\<rparr>)))"

definition vector_assign :: "int \<Rightarrow> 'a \<Rightarrow> error + 'a list" where
  \<comment> \<open>\<open>std::vector::assign(n, value)\<close> called with an \<open>int\<close> count: a negative
      count converts to a size above \<open>max_size()\<close>\<close>
  "vector_assign n v = (if n < 0 then Inl LengthError else Inr (replicate (nat n) v))"

definition runMpc_initialParam :: "CentroidalManagerDdpZmp \<Rightarrow> error + InitialParam" where
  \<comment> \<open>lines 49 to 61 of \<open>runMpc\<close>: the argument built for \<open>planOnce\<close>. A list is
      shorter than \<open>2 ^ 63\<close>, so the unsigned comparison of its size with a
      negative \<open>horizon_steps\<close> is false, as the comparison of integers is.\<close>
  "runMpc_initialParam m =
     (case ddp m of
        None \<Rightarrow> Inl UndefinedBehavior
      | Some d \<Rightarrow>
          if int (length (controlData_u_list d)) = horizon_steps d
          then Inr \<lparr>pos = mpcCom m, vel = mpcComVel m, u_list = controlData_u_list d\<rparr>
          else
            (case vector_assign (horizon_steps d)
                    (vec_x (mpcCom m), vec_y (mpcCom m), robotMass m * constants_g) of
               Inl e \<Rightarrow> Inl e
             | Inr us \<Rightarrow> Inr \<lparr>pos = mpcCom m, vel = mpcComVel m, u_list = us\<rparr>))"

definition calcRefData ::
  "(real \<Rightarrow> Vector3d) \<Rightarrow> CentroidalManagerDdpZmp \<Rightarrow> real \<Rightarrow> RefData" where
  "calcRefData calcRefZmp m t =
     \<lparr>ref_zmp = (vec_x (calcRefZmp t), vec_y (calcRefZmp t)),
      ref_com_z = refComZ (config m)\<rparr>"

definition runMpc ::
  "(DdpZmp \<Rightarrow> (real \<Rightarrow> RefData) \<Rightarrow> InitialParam \<Rightarrow> real \<Rightarrow> PlannedData \<times> DdpZmp)
   \<Rightarrow> (real \<Rightarrow> Vector3d) \<Rightarrow> real \<Rightarrow> CentroidalManagerDdpZmp
   \<Rightarrow> error + CentroidalManagerDdpZmp" where
  "runMpc planOnce calcRefZmp ctl_t m =
     (case runMpc_initialParam m of
        Inl e \<Rightarrow> Inl e
      | Inr initialParam \<Rightarrow>
          (case ddp m of
             None \<Rightarrow> Inl UndefinedBehavior
           | Some d \<Rightarrow>
               (case planOnce d (calcRefData calcRefZmp m) initialParam ctl_t of
                  (plannedData, d') \<Rightarrow>
                    Inr (m\<lparr>ddp := Some d',
                           plannedZmp := (fst (zmp plannedData), snd (zmp plannedData), 0),
                           plannedForceZ := force_z plannedData\<rparr>))))"

section \<open>Scenarios\<close>

text \<open>
  The piecewise function of the specification's scenario: \<open>Constant(5)\<close> up to
  \<open>t = 1\<close>, \<open>Constant(9)\<close> up to \<open>t = 2\<close>, lower limit \<open>0\<close>; and a manager with
  a given horizon duration and time step.

  Double division is correctly rounded: when the exact quotient of two doubles is
  itself a double, it is the result. \<open>exact_quotient\<close> is the double division on
  such arguments only. The scenarios divide \<open>0\<close>, \<open>1 / 8\<close>, \<open>1\<close> and \<open>- 1\<close> by
  \<open>1 / 4\<close>; the operands and the quotients \<open>0\<close>, \<open>1 / 2\<close>, \<open>4\<close> and \<open>- 4\<close> are
  doubles.
\<close>

definition exact_quotient :: "real \<Rightarrow> real \<Rightarrow> real option" where
  "exact_quotient a b = (if b = 0 then None else Some (a / b))"

definition example_piecewise :: "real PiecewiseFunc" where
  "example_piecewise =
     appendFunc 2 (Polynomial_Func (Constant 9))
       (appendFunc 1 (Polynomial_Func (Constant 5))
          (setDomainLowerLimit 0 PiecewiseFunc_new))"

definition example_manager :: "real \<Rightarrow> real \<Rightarrow> CentroidalManagerDdpZmp" where
  "example_manager duration dt =
     \<lparr>config = \<lparr>refComZ = 4 / 5, horizonDuration = duration, horizonDt = dt, ddpMaxIter = 3\<rparr>,
      robotMass = 40, mpcCom = (1 / 10, 1 / 5, 4 / 5), mpcComVel = (0, 0, 0), ddp = None,
      plannedZmp = (0, 0, 0), plannedForceZ = 0\<rparr>"

definition example_solver :: "int \<Rightarrow> InputDimVector list \<Rightarrow> DdpZmp" where
  "example_solver steps us =
     \<lparr>ddp_mass = 40, ddp_horizon_dt = 1 / 4, horizon_steps = steps, max_iter = 3,
      controlData_u_list = us\<rparr>"

section \<open>Loops over index ranges\<close>

lemma fold_scale_upt:
  "fold (\<lambda>j r. f j *\<^sub>R r) [0..<n] (c::'a::real_vector) = (\<Prod>j<n. f j) *\<^sub>R c"
  by (induction n) (simp_all add: mult.commute)

lemma fold_add_upt:
  "fold (\<lambda>i r. r + f i) [0..<n] (a::'a::comm_monoid_add) = a + (\<Sum>i<n. f i)"
  by (induction n) (simp_all add: ac_simps)

lemma prod_down_reindex:
  "(\<Prod>j<n. g (b + n - j)) = (\<Prod>m = 1..n::nat. (g (b + m :: nat) :: real))"
proof (induction n)
  case 0
  show ?case by simp
next
  case (Suc n)
  have "(\<Prod>j<Suc n. g (b + Suc n - j)) = g (b + Suc n) * (\<Prod>j<n. g (b + Suc n - Suc j))"
    by (simp only: prod.lessThan_Suc_shift diff_zero)
  also have "(\<Prod>j<n. g (b + Suc n - Suc j)) = (\<Prod>j<n. g (b + n - j))"
    by simp
  also have "\<dots> = (\<Prod>m = 1..n. g (b + m))"
    by (rule Suc.IH)
  finally have lhs:
    "(\<Prod>j<Suc n. g (b + Suc n - j)) = g (b + Suc n) * (\<Prod>m = 1..n. g (b + m))" .
  have rhs: "(\<Prod>m = 1..Suc n. g (b + m)) = g (b + Suc n) * (\<Prod>m = 1..n. g (b + m))"
    by (simp add: mult.commute)
  show ?case
    unfolding lhs rhs ..
qed

lemma factorial_down:
  assumes "0 < k"
  shows "(\<Prod>j<k - 1. real (k - j)) = (\<Prod>m = 1..k. real m)"
proof -
  have "(\<Prod>j<k - 1. real (k - j)) = (\<Prod>j<k - 1. real (1 + (k - 1) - j))"
    using assms by simp
  also have "\<dots> = (\<Prod>m = 1..k - 1. real (1 + m))"
    by (rule prod_down_reindex)
  also have "\<dots> = (\<Prod>m = 1..k. real m)"
  proof -
    have "(\<Prod>m = 1..k. real m) = real 1 * (\<Prod>m = Suc 1..k. real m)"
      using assms by (subst prod.atLeast_Suc_atMost) simp_all
    also have "(\<Prod>m = Suc 1..k. real m) = (\<Prod>m = Suc 1..Suc (k - 1). real m)"
      using assms by simp
    also have "\<dots> = (\<Prod>m = 1..k - 1. real (Suc m))"
      by (rule prod.shift_bounds_cl_Suc_ivl)
    finally show ?thesis by simp
  qed
  finally show ?thesis .
qed

lemma sum_shift_head:
  "f 0 + (\<Sum>i<n. f (i + 1)) = (\<Sum>i = 0..n::nat. (f i :: 'a::comm_monoid_add))"
proof -
  have "(\<Sum>i = 0..n. f i) = (\<Sum>i<Suc n. f i)"
    by (simp add: atLeast0AtMost lessThan_Suc_atMost)
  also have "\<dots> = f 0 + (\<Sum>i<n. f (Suc i))"
    by (rule sum.lessThan_Suc_shift)
  finally show ?thesis by simp
qed

section \<open>Polynomial: evaluation and derivatives\<close>

lemma Polynomial_call_sum:
  "Polynomial_call p t = (\<Sum>i = 0..Order p. ((t - t0 p) ^ i) *\<^sub>R (coeff p ! i))"
proof -
  let ?f = "\<lambda>i. ((t - t0 p) ^ i) *\<^sub>R (coeff p ! i)"
  have "Polynomial_call p t = coeff p ! 0 + (\<Sum>i<Order p. ?f (i + 1))"
    unfolding Polynomial_call_def by (rule fold_add_upt)
  also have "\<dots> = ?f 0 + (\<Sum>i<Order p. ?f (i + 1))"
    by simp
  also have "\<dots> = (\<Sum>i = 0..Order p. ?f i)"
    by (rule sum_shift_head)
  finally show ?thesis .
qed

lemma Constant_wf: "Polynomial_wf (Constant v)"
  by (simp add: Polynomial_wf_def Constant_def)

lemma Constant_Order: "Order (Constant v) = 0"
  by (simp add: Constant_def)

lemma Constant_call_value: "Constant_call (Constant v) t = v"
  by (simp add: Constant_call_def Polynomial_call_def Constant_def)

text \<open>
  C6. For a polynomial with \<open>Order + 1\<close> coefficients, \<open>operator()\<close> returns the sum
  over \<open>i = 0..Order\<close> of \<open>coeff[i]\<close> times \<open>(t - t0)\<close> to the power \<open>i\<close>; a
  \<open>Constant\<close> is a well-formed polynomial of order 0 whose evaluation returns the
  stored value for every argument.
\<close>

theorem Polynomial_call_correct:
  "(Polynomial_wf p \<longrightarrow>
      Polynomial_call p t = (\<Sum>i = 0..Order p. ((t - t0 p) ^ i) *\<^sub>R (coeff p ! i)))
   \<and> Polynomial_wf (Constant v) \<and> Order (Constant v) = 0
   \<and> Constant_call (Constant v) t' = v"
  by (simp add: Polynomial_call_sum Constant_wf Constant_call_value Constant_Order)

theorem Polynomial_call_correct_witness:
  "Polynomial_wf \<lparr>Order = 2, coeff = [1, 2, 3 :: real], t0 = 0\<rparr>
   \<and> Polynomial_call \<lparr>Order = 2, coeff = [1, 2, 3 :: real], t0 = 0\<rparr> 2 = 17
   \<and> Constant_call (Constant (5 :: real)) 7 = 5"
  using Polynomial_call_correct
    [of "\<lparr>Order = 2, coeff = [1, 2, 3 :: real], t0 = 0\<rparr>" 2 "5 :: real" 7]
  by (simp add: Polynomial_wf_def eval_nat_numeral)

text \<open>
  C1. For a derivative order \<open>d\<close> with \<open>0 < d \<le> Order\<close>, \<open>derivative(t, d)\<close> returns
  the sum over \<open>i = 0..Order - d\<close> of \<open>coeff[i + d]\<close> scaled by the falling
  factorial \<open>(i + d)(i + d - 1)\<dots>(i + 1)\<close> and by \<open>(t - t0)\<close> to the power \<open>i\<close>.
\<close>

theorem Polynomial_derivative_correct:
  assumes wf: "Polynomial_wf p"
    and pos: "0 < d" and le: "d \<le> int (Order p)"
  shows "Polynomial_derivative p t d =
         Inr (\<Sum>i = 0..Order p - nat d.
               ((\<Prod>m = 1..nat d. real (i + m)) * (t - t0 p) ^ i) *\<^sub>R (coeff p ! (i + nat d)))"
proof -
  define k where "k = nat d"
  have k: "0 < k" "k \<le> Order p" "d = int k"
    using pos le by (simp_all add: k_def)
  let ?F = "\<lambda>i. (\<Prod>m = 1..k. real (i + m))"
  let ?f = "\<lambda>i. (?F i * (t - t0 p) ^ i) *\<^sub>R (coeff p ! (i + k))"
  have head: "fold (\<lambda>j ret. real (k - j) *\<^sub>R ret) [0..<k - 1] (coeff p ! k) = ?f 0"
  proof -
    have "fold (\<lambda>j ret. real (k - j) *\<^sub>R ret) [0..<k - 1] (coeff p ! k)
          = (\<Prod>j<k - 1. real (k - j)) *\<^sub>R (coeff p ! k)"
      by (rule fold_scale_upt)
    also have "(\<Prod>j<k - 1. real (k - j)) = (\<Prod>m = 1..k. real m)"
      using k(1) by (rule factorial_down)
    finally show ?thesis by simp
  qed
  have body: "fold (\<lambda>j term. real (i + 1 + k - j) *\<^sub>R term) [0..<k]
                (((t - t0 p) ^ (i + 1)) *\<^sub>R (coeff p ! (i + 1 + k))) = ?f (i + 1)" for i
  proof -
    have "fold (\<lambda>j term. real (i + 1 + k - j) *\<^sub>R term) [0..<k]
                (((t - t0 p) ^ (i + 1)) *\<^sub>R (coeff p ! (i + 1 + k)))
          = (\<Prod>j<k. real (i + 1 + k - j)) *\<^sub>R
              (((t - t0 p) ^ (i + 1)) *\<^sub>R (coeff p ! (i + 1 + k)))"
      by (rule fold_scale_upt)
    also have "(\<Prod>j<k. real (i + 1 + k - j)) = ?F (i + 1)"
      by (rule prod_down_reindex)
    finally show ?thesis by simp
  qed
  have "Polynomial_derivative p t d =
        Inr (fold (\<lambda>i ret. ret + fold (\<lambda>j term. real (i + 1 + k - j) *\<^sub>R term) [0..<k]
                          (((t - t0 p) ^ (i + 1)) *\<^sub>R (coeff p ! (i + 1 + k))))
               [0..<Order p - k]
               (fold (\<lambda>j ret. real (k - j) *\<^sub>R ret) [0..<k - 1] (coeff p ! k)))"
    unfolding Polynomial_derivative_def Let_def k_def using pos le by simp
  also have "\<dots> = Inr (fold (\<lambda>i ret. ret + ?f (i + 1)) [0..<Order p - k] (?f 0))"
    by (simp only: head body)
  also have "fold (\<lambda>i ret. ret + ?f (i + 1)) [0..<Order p - k] (?f 0)
             = ?f 0 + (\<Sum>i<Order p - k. ?f (i + 1))"
    by (rule fold_add_upt)
  also have "\<dots> = (\<Sum>i = 0..Order p - k. ?f i)"
    by (rule sum_shift_head)
  finally show ?thesis by (simp add: k_def)
qed

theorem Polynomial_derivative_correct_witness:
  "Polynomial_wf \<lparr>Order = 2, coeff = [1, 2, 3 :: real], t0 = 0\<rparr>
   \<and> (0 :: int) < 1 \<and> (1 :: int) \<le> int (Order \<lparr>Order = 2, coeff = [1, 2, 3 :: real], t0 = 0\<rparr>)
   \<and> Polynomial_derivative \<lparr>Order = 2, coeff = [1, 2, 3 :: real], t0 = 0\<rparr> 2 1 = Inr 14
   \<and> (0 :: int) < 2 \<and> (2 :: int) \<le> int (Order \<lparr>Order = 2, coeff = [1, 2, 3 :: real], t0 = 0\<rparr>)
   \<and> Polynomial_derivative \<lparr>Order = 2, coeff = [1, 2, 3 :: real], t0 = 0\<rparr> 2 2 = Inr 6"
  using Polynomial_derivative_correct
    [of "\<lparr>Order = 2, coeff = [1, 2, 3 :: real], t0 = 0\<rparr>" 1 2]
    Polynomial_derivative_correct
    [of "\<lparr>Order = 2, coeff = [1, 2, 3 :: real], t0 = 0\<rparr>" 2 2]
  by (simp add: Polynomial_wf_def eval_nat_numeral)

text \<open>
  C5. For every derivative order strictly greater than \<open>Order\<close>, \<open>derivative\<close>
  returns the zero of the value type, at every argument.
\<close>

theorem Polynomial_derivative_above_order:
  "int (Order p) < d \<Longrightarrow> Polynomial_derivative p t d = Inr 0"
  by (simp add: Polynomial_derivative_def)

theorem Polynomial_derivative_above_order_witness:
  "int (Order \<lparr>Order = 2, coeff = [1, 2, 3 :: real], t0 = 0\<rparr>) < 3
   \<and> Polynomial_derivative \<lparr>Order = 2, coeff = [1, 2, 3 :: real], t0 = 0\<rparr> 2 3 = Inr 0"
  using Polynomial_derivative_above_order
    [of "\<lparr>Order = 2, coeff = [1, 2, 3 :: real], t0 = 0\<rparr>" 3 2]
  by simp

section \<open>The ordered map\<close>

lemma map_rbegin_last: "map_rbegin m = (if m = [] then None else Some (last m))"
  by (induction m rule: map_rbegin.induct) simp_all

lemma map_lower_bound_Some:
  "map_lower_bound t m = Some (k, f) \<Longrightarrow> (k, f) \<in> set m \<and> t \<le> k"
  by (induction m) (auto split: if_splits)

lemma map_lower_bound_least:
  "map_ordered m \<Longrightarrow> map_lower_bound t m = Some (k, f) \<Longrightarrow> (k', f') \<in> set m \<Longrightarrow> t \<le> k'
   \<Longrightarrow> k \<le> k'"
  unfolding map_ordered_def
  by (induction m) (auto split: if_splits dest: map_lower_bound_Some)

lemma map_lower_bound_exists:
  "m \<noteq> [] \<Longrightarrow> t \<le> fst (last m) \<Longrightarrow> \<exists>e. map_lower_bound t m = Some e"
  by (induction m) (auto split: if_splits)

lemma map_lower_bound_smallest:
  "map_ordered m \<Longrightarrow> (k, f) \<in> set m \<Longrightarrow> t \<le> k
   \<Longrightarrow> \<forall>(k', f') \<in> set m. t \<le> k' \<longrightarrow> k \<le> k'
   \<Longrightarrow> map_lower_bound t m = Some (k, f)"
  unfolding map_ordered_def
  by (induction m) (auto split: if_splits)

lemma map_ordered_last_max:
  "map_ordered m \<Longrightarrow> (k, f) \<in> set m \<Longrightarrow> k \<le> fst (last m)"
  unfolding map_ordered_def
proof (induction m)
  case Nil
  then show ?case by simp
next
  case (Cons e m)
  show ?case
  proof (cases "m = []")
    case True
    with Cons.prems show ?thesis by auto
  next
    case False
    then have lastin: "last m \<in> set m" by simp
    from Cons.prems have lt: "fst e < fst (last m)" using lastin by auto
    show ?thesis
    proof (cases "(k, f) = e")
      case True
      with lt False show ?thesis by auto
    next
      case False
      with Cons show ?thesis using \<open>m \<noteq> []\<close> by auto
    qed
  qed
qed

lemma map_ordered_nth_mono:
  "map_ordered m \<Longrightarrow> i < j \<Longrightarrow> j < length m \<Longrightarrow> fst (m ! i) < fst (m ! j)"
  unfolding map_ordered_def by (simp add: sorted_wrt_iff_nth_less)

lemma map_lower_bound_index:
  assumes ord: "map_ordered m" and i: "i < length m"
    and own: "i = 0 \<or> fst (m ! (i - 1)) < t" and up: "t \<le> fst (m ! i)"
  shows "map_lower_bound t m = Some (m ! i)"
proof -
  obtain k f where kf: "m ! i = (k, f)" by (cases "m ! i")
  have mem: "(k, f) \<in> set m" using i kf by (metis nth_mem)
  have least: "\<forall>(k', f') \<in> set m. t \<le> k' \<longrightarrow> k \<le> k'"
  proof (clarify)
    fix k' f' assume in': "(k', f') \<in> set m" and tk: "t \<le> k'"
    then obtain j where j: "j < length m" "m ! j = (k', f')" by (metis in_set_conv_nth)
    show "k \<le> k'"
    proof (cases "j < i")
      case True
      then have "i \<noteq> 0" by simp
      with own have lt: "fst (m ! (i - 1)) < t" by simp
      have "fst (m ! j) \<le> fst (m ! (i - 1))"
      proof (cases "j = i - 1")
        case True then show ?thesis by simp
      next
        case False
        with \<open>j < i\<close> have "j < i - 1" by simp
        with ord i have "fst (m ! j) < fst (m ! (i - 1))"
          by (intro map_ordered_nth_mono) simp_all
        then show ?thesis by simp
      qed
      with lt tk j show ?thesis by simp
    next
      case False
      show ?thesis
      proof (cases "j = i")
        case True with j kf show ?thesis by simp
      next
        case False
        with \<open>\<not> j < i\<close> have "i < j" by simp
        with ord j have "fst (m ! i) < fst (m ! j)" by (intro map_ordered_nth_mono) simp_all
        with kf j show ?thesis by simp
      qed
    qed
  qed
  from up kf have "t \<le> k" by simp
  with map_lower_bound_smallest[OF ord mem _ least] kf show ?thesis by simp
qed

lemma map_insert_elem:
  "e \<in> set (map_insert k v m) \<Longrightarrow> e = (k, v) \<or> e \<in> set m"
  by (induction m) (auto split: if_splits)

lemma map_insert_keeps: "set m \<subseteq> set (map_insert k v m)"
  by (induction m) auto

lemma key_in_keys: "(a, b) \<in> S \<Longrightarrow> a \<in> fst ` S"
  by force

lemma map_insert_has_key: "k \<in> fst ` set (map_insert k v m)"
  by (induction m) (auto intro: key_in_keys)

lemma set_map_insert: "fst ` set (map_insert k v m) = insert k (fst ` set m)"
proof
  show "fst ` set (map_insert k v m) \<subseteq> insert k (fst ` set m)"
    using map_insert_elem[of _ k v m] by force
  show "insert k (fst ` set m) \<subseteq> fst ` set (map_insert k v m)"
    using map_insert_keeps[of m k v] map_insert_has_key[of k v m] by auto
qed

lemma map_insert_absent:
  "k \<notin> fst ` set m \<Longrightarrow> set (map_insert k v m) = insert (k, v) (set m)"
proof (induction m)
  case Nil
  show ?case by simp
next
  case (Cons e m)
  obtain k' v' where e: "e = (k', v')" by (cases e)
  from Cons.prems e have ne: "k \<noteq> k'" and notin: "k \<notin> fst ` set m" by auto
  from Cons.IH[OF notin] ne e show ?case by auto
qed

lemma map_insert_ordered: "map_ordered m \<Longrightarrow> map_ordered (map_insert k v m)"
  unfolding map_ordered_def
  by (induction m) (fastforce simp: set_map_insert)+

lemma map_insert_present:
  "map_ordered m \<Longrightarrow> k \<in> fst ` set m \<Longrightarrow> map_insert k v m = m"
  unfolding map_ordered_def
  by (induction m) fastforce+

lemma map_ordered_Max:
  assumes "map_ordered m" "m \<noteq> []"
  shows "fst (last m) = Max (fst ` set m)"
proof -
  have "Max (fst ` set m) = fst (last m)"
  proof (rule Max_eqI)
    show "finite (fst ` set m)" by simp
    show "fst (last m) \<in> fst ` set m" using assms(2) by simp
    fix y assume "y \<in> fst ` set m"
    then obtain f where "(y, f) \<in> set m" by auto
    with assms(1) show "y \<le> fst (last m)" by (rule map_ordered_last_max)
  qed
  then show ?thesis by simp
qed

lemma PiecewiseFunc_new_ordered: "map_ordered (funcs PiecewiseFunc_new)"
  by (simp add: PiecewiseFunc_new_def map_ordered_def)

lemma clearFuncs_ordered: "map_ordered (funcs (clearFuncs pf))"
  by (simp add: clearFuncs_def map_ordered_def)

lemma setDomainLowerLimit_ordered:
  "map_ordered (funcs pf) \<Longrightarrow> map_ordered (funcs (setDomainLowerLimit t pf))"
  by (simp add: setDomainLowerLimit_def)

lemma appendFunc_ordered:
  "map_ordered (funcs pf) \<Longrightarrow> map_ordered (funcs (appendFunc t func pf))"
  by (simp add: appendFunc_def map_insert_ordered)

lemma appendFunc_keys:
  "fst ` set (funcs (appendFunc t func pf)) = insert t (fst ` set (funcs pf))"
  by (simp add: appendFunc_def set_map_insert)

lemma appendAll_ordered:
  "map_ordered (funcs pf) \<Longrightarrow> map_ordered (funcs (appendAll xs pf))"
  unfolding appendAll_def
  by (induction xs arbitrary: pf) (auto simp: appendFunc_ordered)

lemma appendAll_keys:
  "fst ` set (funcs (appendAll xs pf)) = fst ` set xs \<union> fst ` set (funcs pf)"
  unfolding appendAll_def
proof (induction xs arbitrary: pf)
  case Nil
  show ?case by simp
next
  case (Cons x xs)
  obtain t func where x: "x = (t, func)" by (cases x)
  have "fst ` set (funcs (fold (\<lambda>(t, func). appendFunc t func) (x # xs) pf))
        = fst ` set xs \<union> fst ` set (funcs (appendFunc t func pf))"
    using Cons.IH[of "appendFunc t func pf"] x by simp
  also have "\<dots> = fst ` set xs \<union> insert t (fst ` set (funcs pf))"
    by (simp only: appendFunc_keys)
  finally show ?case using x by simp
qed

lemma appendAll_tLowerLimit: "tLowerLimit (appendAll xs pf) = tLowerLimit pf"
  unfolding appendAll_def
  by (induction xs arbitrary: pf) (auto simp: appendFunc_def)

lemma domainUpperLimit_eq:
  "domainUpperLimit pf = (if funcs pf = [] then double_max else fst (last (funcs pf)))"
  by (simp add: domainUpperLimit_def map_rbegin_last split: prod.splits)

section \<open>PiecewiseFunc: domain check and dispatch\<close>

lemma map_insert_greater:
  "\<forall>k \<in> fst ` set m. k < t \<Longrightarrow> map_insert t v m = m @ [(t, v)]"
  by (induction m) auto

lemma checkArg_nonempty:
  "funcs pf \<noteq> [] \<Longrightarrow>
   checkArg pf t =
     (if t < tLowerLimit pf \<or> fst (last (funcs pf)) < t
      then Inl (OutOfDomain (tLowerLimit pf) t (fst (last (funcs pf)))) else Inr ())"
  by (simp add: checkArg_def map_rbegin_last split: prod.splits)

lemma checkArg_empty: "funcs pf = [] \<Longrightarrow> checkArg pf t = Inl UndefinedBehavior"
  by (simp add: checkArg_def)

text \<open>
  C3. For a piecewise function with at least one segment, \<open>operator()\<close> and
  \<open>derivative\<close> fail with the out-of-domain error, which carries the lower limit,
  the argument and the last key, when \<open>t\<close> is below the lower limit or above the
  last key; for \<open>t\<close> between the two bounds, both included, the argument check
  passes and the call is answered by one of the stored segments.
\<close>

theorem PiecewiseFunc_out_of_domain:
  assumes ne: "funcs pf \<noteq> []"
  shows "(t < tLowerLimit pf \<or> fst (last (funcs pf)) < t \<longrightarrow>
            checkArg pf t = Inl (OutOfDomain (tLowerLimit pf) t (fst (last (funcs pf))))
          \<and> PiecewiseFunc_call pf t = Inl (OutOfDomain (tLowerLimit pf) t (fst (last (funcs pf))))
          \<and> PiecewiseFunc_derivative pf t order
              = Inl (OutOfDomain (tLowerLimit pf) t (fst (last (funcs pf)))))
       \<and> (tLowerLimit pf \<le> t \<and> t \<le> fst (last (funcs pf)) \<longrightarrow>
            checkArg pf t = Inr ()
          \<and> (\<exists>k f. (k, f) \<in> set (funcs pf)
                \<and> PiecewiseFunc_call pf t = func_call f t
                \<and> PiecewiseFunc_derivative pf t order = func_derivative f t order))"
proof (intro conjI impI)
  assume out: "t < tLowerLimit pf \<or> fst (last (funcs pf)) < t"
  then show c: "checkArg pf t = Inl (OutOfDomain (tLowerLimit pf) t (fst (last (funcs pf))))"
    using ne by (simp add: checkArg_nonempty)
  show "PiecewiseFunc_call pf t = Inl (OutOfDomain (tLowerLimit pf) t (fst (last (funcs pf))))"
    by (simp add: PiecewiseFunc_call_def c)
  show "PiecewiseFunc_derivative pf t order
        = Inl (OutOfDomain (tLowerLimit pf) t (fst (last (funcs pf))))"
    by (simp add: PiecewiseFunc_derivative_def c)
next
  assume dom: "tLowerLimit pf \<le> t \<and> t \<le> fst (last (funcs pf))"
  then show c: "checkArg pf t = Inr ()"
    using ne by (simp add: checkArg_nonempty)
  from ne dom obtain e where e: "map_lower_bound t (funcs pf) = Some e"
    using map_lower_bound_exists by blast
  obtain k f where kf: "e = (k, f)" by (cases e)
  have "(k, f) \<in> set (funcs pf)"
    using map_lower_bound_Some[of t "funcs pf" k f] e kf by simp
  moreover have "PiecewiseFunc_call pf t = func_call f t"
    by (simp add: PiecewiseFunc_call_def c e kf)
  moreover have "PiecewiseFunc_derivative pf t order = func_derivative f t order"
    by (simp add: PiecewiseFunc_derivative_def c e kf)
  ultimately show "\<exists>k f. (k, f) \<in> set (funcs pf)
      \<and> PiecewiseFunc_call pf t = func_call f t
      \<and> PiecewiseFunc_derivative pf t order = func_derivative f t order"
    by blast
qed

lemma dispatch_smallest:
  assumes ord: "map_ordered (funcs pf)" and lo: "tLowerLimit pf \<le> t"
    and mem: "(k, f) \<in> set (funcs pf)" and up: "t \<le> k"
    and least: "\<forall>(k', f') \<in> set (funcs pf). t \<le> k' \<longrightarrow> k \<le> k'"
  shows "PiecewiseFunc_call pf t = func_call f t
       \<and> PiecewiseFunc_derivative pf t order = func_derivative f t order"
proof -
  from mem have ne: "funcs pf \<noteq> []" by auto
  from ord mem have "k \<le> fst (last (funcs pf))" by (rule map_ordered_last_max)
  with up lo ne have c: "checkArg pf t = Inr ()"
    by (simp add: checkArg_nonempty)
  have lb: "map_lower_bound t (funcs pf) = Some (k, f)"
    using ord mem up least by (rule map_lower_bound_smallest)
  show ?thesis
    by (simp add: PiecewiseFunc_call_def PiecewiseFunc_derivative_def c lb)
qed

text \<open>
  C4. For an argument not below the lower limit, \<open>operator()\<close> and \<open>derivative\<close>
  are answered by the segment whose key is the smallest key not less than \<open>t\<close>:
  a segment whose key equals \<open>t\<close> answers itself, segment \<open>i\<close> answers every
  \<open>t\<close> above the preceding key and up to its own, and for every \<open>t\<close> up to the
  last key such a segment exists.
\<close>

theorem PiecewiseFunc_dispatch:
  assumes ord: "map_ordered (funcs pf)" and lo: "tLowerLimit pf \<le> t"
  shows "(\<forall>k f. (k, f) \<in> set (funcs pf) \<and> t \<le> k
                \<and> (\<forall>(k', f') \<in> set (funcs pf). t \<le> k' \<longrightarrow> k \<le> k') \<longrightarrow>
            PiecewiseFunc_call pf t = func_call f t
          \<and> PiecewiseFunc_derivative pf t order = func_derivative f t order)
       \<and> (\<forall>f. (t, f) \<in> set (funcs pf) \<longrightarrow>
            PiecewiseFunc_call pf t = func_call f t
          \<and> PiecewiseFunc_derivative pf t order = func_derivative f t order)
       \<and> (\<forall>i. i < length (funcs pf) \<and> (i = 0 \<or> fst (funcs pf ! (i - 1)) < t)
                \<and> t \<le> fst (funcs pf ! i) \<longrightarrow>
            PiecewiseFunc_call pf t = func_call (snd (funcs pf ! i)) t
          \<and> PiecewiseFunc_derivative pf t order = func_derivative (snd (funcs pf ! i)) t order)
       \<and> (funcs pf \<noteq> [] \<and> t \<le> fst (last (funcs pf)) \<longrightarrow>
            (\<exists>k f. (k, f) \<in> set (funcs pf) \<and> t \<le> k
                \<and> (\<forall>(k', f') \<in> set (funcs pf). t \<le> k' \<longrightarrow> k \<le> k')
                \<and> PiecewiseFunc_call pf t = func_call f t
                \<and> PiecewiseFunc_derivative pf t order = func_derivative f t order))"
proof (intro conjI allI impI)
  fix k f
  assume h: "(k, f) \<in> set (funcs pf) \<and> t \<le> k
             \<and> (\<forall>(k', f') \<in> set (funcs pf). t \<le> k' \<longrightarrow> k \<le> k')"
  with dispatch_smallest[OF ord lo, of k f order]
  show "PiecewiseFunc_call pf t = func_call f t"
    and "PiecewiseFunc_derivative pf t order = func_derivative f t order"
    by simp_all
next
  fix f
  assume h: "(t, f) \<in> set (funcs pf)"
  have "\<forall>(k', f') \<in> set (funcs pf). t \<le> k' \<longrightarrow> t \<le> k'" by auto
  with dispatch_smallest[OF ord lo h, of order]
  show "PiecewiseFunc_call pf t = func_call f t"
    and "PiecewiseFunc_derivative pf t order = func_derivative f t order"
    by simp_all
next
  fix i
  assume h: "i < length (funcs pf) \<and> (i = 0 \<or> fst (funcs pf ! (i - 1)) < t)
             \<and> t \<le> fst (funcs pf ! i)"
  then have lb: "map_lower_bound t (funcs pf) = Some (funcs pf ! i)"
    using map_lower_bound_index[OF ord] by blast
  from h have ne: "funcs pf \<noteq> []" by auto
  have "(fst (funcs pf ! i), snd (funcs pf ! i)) \<in> set (funcs pf)"
    using h by simp
  with ord have "fst (funcs pf ! i) \<le> fst (last (funcs pf))"
    by (rule map_ordered_last_max)
  with h lo ne have c: "checkArg pf t = Inr ()"
    by (simp add: checkArg_nonempty)
  show "PiecewiseFunc_call pf t = func_call (snd (funcs pf ! i)) t"
    by (simp add: PiecewiseFunc_call_def c lb split: prod.splits)
  show "PiecewiseFunc_derivative pf t order = func_derivative (snd (funcs pf ! i)) t order"
    by (simp add: PiecewiseFunc_derivative_def c lb split: prod.splits)
next
  assume h: "funcs pf \<noteq> [] \<and> t \<le> fst (last (funcs pf))"
  then obtain e where e: "map_lower_bound t (funcs pf) = Some e"
    using map_lower_bound_exists by blast
  obtain k f where kf: "e = (k, f)" by (cases e)
  have mem: "(k, f) \<in> set (funcs pf)" and up: "t \<le> k"
    using map_lower_bound_Some[of t "funcs pf" k f] e kf by simp_all
  have least: "\<forall>(k', f') \<in> set (funcs pf). t \<le> k' \<longrightarrow> k \<le> k'"
    using map_lower_bound_least[OF ord] e kf by blast
  from dispatch_smallest[OF ord lo mem up least, of order] mem up least
  show "\<exists>k f. (k, f) \<in> set (funcs pf) \<and> t \<le> k
                \<and> (\<forall>(k', f') \<in> set (funcs pf). t \<le> k' \<longrightarrow> k \<le> k')
                \<and> PiecewiseFunc_call pf t = func_call f t
                \<and> PiecewiseFunc_derivative pf t order = func_derivative f t order"
    by blast
qed

text \<open>
  C10. On a piecewise function with no segment, the argument check dereferences
  \<open>rbegin()\<close> of the empty map on every path, so \<open>operator()\<close> and
  \<open>derivative\<close> have no defined result for any argument, although
  \<open>domainUpperLimit\<close> handles the empty map.
\<close>

theorem PiecewiseFunc_empty_undefined:
  "funcs pf = [] \<Longrightarrow>
     checkArg pf t = Inl UndefinedBehavior
   \<and> PiecewiseFunc_call pf t = Inl UndefinedBehavior
   \<and> PiecewiseFunc_derivative pf t order = Inl UndefinedBehavior
   \<and> domainUpperLimit pf = double_max"
  by (simp add: checkArg_empty PiecewiseFunc_call_def PiecewiseFunc_derivative_def
      domainUpperLimit_eq)

text \<open>
  C9. \<open>domainLowerLimit\<close> returns the stored lower limit, which is the lowest
  double after construction and after \<open>clearFuncs\<close>; \<open>domainUpperLimit\<close> returns
  the largest double when there is no segment, and otherwise the largest key, which
  is the largest key appended since construction.
\<close>

theorem PiecewiseFunc_domain_limits:
  "domainLowerLimit pf = tLowerLimit pf
   \<and> domainLowerLimit (PiecewiseFunc_new :: 'a PiecewiseFunc) = double_lowest
   \<and> domainLowerLimit (clearFuncs pf) = double_lowest
   \<and> domainLowerLimit (setDomainLowerLimit t pf) = t
   \<and> domainLowerLimit (appendFunc t func pf) = domainLowerLimit pf
   \<and> domainUpperLimit (PiecewiseFunc_new :: 'a PiecewiseFunc) = double_max
   \<and> domainUpperLimit (clearFuncs pf) = double_max
   \<and> (funcs pf = [] \<longrightarrow> domainUpperLimit pf = double_max)
   \<and> (map_ordered (funcs pf) \<and> funcs pf \<noteq> [] \<longrightarrow>
        domainUpperLimit pf = Max (fst ` set (funcs pf)))
   \<and> (xs \<noteq> [] \<longrightarrow>
        domainUpperLimit (appendAll xs (PiecewiseFunc_new :: 'a PiecewiseFunc))
          = Max (fst ` set xs))"
proof -
  have new_ord: "map_ordered (funcs (PiecewiseFunc_new :: 'a PiecewiseFunc))"
    by (simp add: PiecewiseFunc_new_def map_ordered_def)
  have built: "domainUpperLimit (appendAll xs (PiecewiseFunc_new :: 'a PiecewiseFunc))
          = Max (fst ` set xs)" if "xs \<noteq> []"
  proof -
    let ?pf = "appendAll xs (PiecewiseFunc_new :: 'a PiecewiseFunc)"
    have keys: "fst ` set (funcs ?pf) = fst ` set xs"
      by (simp add: appendAll_keys PiecewiseFunc_new_def)
    with that have ne: "funcs ?pf \<noteq> []" by auto
    have ord: "map_ordered (funcs ?pf)"
      using new_ord by (rule appendAll_ordered)
    show ?thesis
      using map_ordered_Max[OF ord ne] ne keys by (simp add: domainUpperLimit_eq)
  qed
  show ?thesis
    using built
    by (auto simp: domainLowerLimit_def domainUpperLimit_eq PiecewiseFunc_new_def
        clearFuncs_def setDomainLowerLimit_def appendFunc_def map_ordered_Max)
qed

text \<open>
  C7, as amended. \<open>appendFunc\<close> accepts every key: the keys stay strictly
  increasing and the lower limit is kept; a key already present leaves the function
  unchanged (the new segment is dropped), a new key is inserted at its place in the
  order, and a key above all stored keys is appended at the end.
\<close>

theorem appendFunc_never_rejects:
  assumes ord: "map_ordered (funcs pf)"
  shows "map_ordered (funcs (appendFunc t func pf))
       \<and> tLowerLimit (appendFunc t func pf) = tLowerLimit pf
       \<and> fst ` set (funcs (appendFunc t func pf)) = insert t (fst ` set (funcs pf))
       \<and> (t \<in> fst ` set (funcs pf) \<longrightarrow> appendFunc t func pf = pf)
       \<and> (t \<notin> fst ` set (funcs pf) \<longrightarrow>
            set (funcs (appendFunc t func pf)) = insert (t, func) (set (funcs pf)))
       \<and> ((\<forall>k \<in> fst ` set (funcs pf). k < t) \<longrightarrow>
            funcs (appendFunc t func pf) = funcs pf @ [(t, func)])"
  using ord
  by (simp add: appendFunc_ordered appendFunc_keys)
     (simp add: appendFunc_def map_insert_present map_insert_absent map_insert_greater)

lemma example_piecewise_funcs:
  "funcs example_piecewise
   = [(1, Polynomial_Func (Constant 5)), (2, Polynomial_Func (Constant 9))]"
  by (simp add: example_piecewise_def appendFunc_def setDomainLowerLimit_def
      PiecewiseFunc_new_def)

lemma example_piecewise_lower: "tLowerLimit example_piecewise = 0"
  by (simp add: example_piecewise_def appendFunc_def setDomainLowerLimit_def
      PiecewiseFunc_new_def)

lemma Constant_Func_call: "func_call (Polynomial_Func (Constant v)) t = Inr v"
  by (simp add: Polynomial_Func_def Constant_def Polynomial_call_def)

theorem PiecewiseFunc_out_of_domain_witness:
  "funcs example_piecewise \<noteq> []
   \<and> PiecewiseFunc_call example_piecewise (5 / 2) = Inl (OutOfDomain 0 (5 / 2) 2)
   \<and> PiecewiseFunc_derivative example_piecewise (5 / 2) 1 = Inl (OutOfDomain 0 (5 / 2) 2)
   \<and> PiecewiseFunc_call example_piecewise (- 1) = Inl (OutOfDomain 0 (- 1) 2)
   \<and> checkArg example_piecewise 2 = Inr ()
   \<and> checkArg example_piecewise 0 = Inr ()"
  using PiecewiseFunc_out_of_domain [of example_piecewise "5 / 2" 1]
    PiecewiseFunc_out_of_domain [of example_piecewise "- 1" 1]
    PiecewiseFunc_out_of_domain [of example_piecewise 2 1]
    PiecewiseFunc_out_of_domain [of example_piecewise 0 1]
  by (simp add: example_piecewise_funcs example_piecewise_lower)

lemma Constant_Func_derivative:
  "0 < d \<Longrightarrow> func_derivative (Polynomial_Func (Constant v)) t d = Inr 0"
  by (simp add: Polynomial_Func_def Constant_def Polynomial_derivative_def)

theorem PiecewiseFunc_dispatch_witness:
  "map_ordered (funcs example_piecewise) \<and> tLowerLimit example_piecewise \<le> 1
   \<and> PiecewiseFunc_call example_piecewise 1 = Inr 5
   \<and> PiecewiseFunc_derivative example_piecewise 1 1 = Inr 0
   \<and> PiecewiseFunc_call example_piecewise (1 / 2) = Inr 5
   \<and> PiecewiseFunc_call example_piecewise (3 / 2) = Inr 9"
proof -
  have ord: "map_ordered (funcs example_piecewise)"
    by (simp add: example_piecewise_funcs map_ordered_def)
  have lo: "tLowerLimit example_piecewise \<le> 1" "tLowerLimit example_piecewise \<le> 1 / 2"
    "tLowerLimit example_piecewise \<le> 3 / 2"
    by (simp_all add: example_piecewise_lower)
  have a: "PiecewiseFunc_call example_piecewise 1 = Inr 5
           \<and> PiecewiseFunc_derivative example_piecewise 1 1 = Inr 0"
    using PiecewiseFunc_dispatch [OF ord lo(1), of 1, THEN conjunct2, THEN conjunct1,
        rule_format, of "Polynomial_Func (Constant 5)"]
    by (simp add: example_piecewise_funcs Constant_Func_call Constant_Func_derivative)
  have b: "PiecewiseFunc_call example_piecewise (1 / 2) = Inr 5"
    using PiecewiseFunc_dispatch [OF ord lo(2), of 1, THEN conjunct2, THEN conjunct2,
        THEN conjunct1, rule_format, of 0]
    by (simp add: example_piecewise_funcs Constant_Func_call)
  have c: "PiecewiseFunc_call example_piecewise (3 / 2) = Inr 9"
    using PiecewiseFunc_dispatch [OF ord lo(3), of 1, THEN conjunct2, THEN conjunct2,
        THEN conjunct1, rule_format, of 1]
    by (simp add: example_piecewise_funcs Constant_Func_call)
  from ord lo a b c show ?thesis by simp
qed

theorem PiecewiseFunc_empty_undefined_witness:
  "funcs (PiecewiseFunc_new :: real PiecewiseFunc) = []
   \<and> PiecewiseFunc_call (PiecewiseFunc_new :: real PiecewiseFunc) 0 = Inl UndefinedBehavior
   \<and> PiecewiseFunc_derivative (PiecewiseFunc_new :: real PiecewiseFunc) 0 1
       = Inl UndefinedBehavior"
  using PiecewiseFunc_empty_undefined [of "PiecewiseFunc_new :: real PiecewiseFunc" 0 1]
  by (simp add: PiecewiseFunc_new_def)

theorem PiecewiseFunc_domain_limits_witness:
  "map_ordered (funcs example_piecewise) \<and> funcs example_piecewise \<noteq> []
   \<and> domainUpperLimit example_piecewise = 2
   \<and> domainLowerLimit example_piecewise = 0
   \<and> funcs (clearFuncs example_piecewise) = []
   \<and> domainUpperLimit (clearFuncs example_piecewise) = double_max
   \<and> domainLowerLimit (clearFuncs example_piecewise) = double_lowest
   \<and> domainUpperLimit
        (appendAll [(2, Polynomial_Func (Constant 9)), (1, Polynomial_Func (Constant 5))]
           (PiecewiseFunc_new :: real PiecewiseFunc)) = 2"
  using PiecewiseFunc_domain_limits [of example_piecewise 0 "Polynomial_Func (Constant 5)"
      "[(2, Polynomial_Func (Constant (9 :: real))), (1, Polynomial_Func (Constant 5))]"]
  by (simp add: example_piecewise_funcs example_piecewise_lower map_ordered_def
      clearFuncs_def)

text \<open>
  C7 as stated fails: appending key 1 after key 2 is accepted, and the segment of
  key 1 then answers \<open>t = 1\<close>; appending key 2 a second time leaves the first
  segment of key 2 in place.
\<close>

theorem appendFunc_rejects_counterexample:
  "map fst (funcs (appendFunc 1 (Polynomial_Func (Constant (9 :: real))) 
                    (appendFunc 2 (Polynomial_Func (Constant 5)) PiecewiseFunc_new)))
     = [1, 2]
   \<and> PiecewiseFunc_call
        (appendFunc 1 (Polynomial_Func (Constant (9 :: real)))
           (appendFunc 2 (Polynomial_Func (Constant 5)) PiecewiseFunc_new)) 1 = Inr 9
   \<and> map fst (funcs (appendFunc 2 (Polynomial_Func (Constant (9 :: real)))
                    (appendFunc 2 (Polynomial_Func (Constant 5)) PiecewiseFunc_new)))
     = [2]
   \<and> PiecewiseFunc_call
        (appendFunc 2 (Polynomial_Func (Constant (9 :: real)))
           (appendFunc 2 (Polynomial_Func (Constant 5)) PiecewiseFunc_new)) 2 = Inr 5"
  by (simp add: appendFunc_def PiecewiseFunc_new_def PiecewiseFunc_call_def checkArg_def
      Constant_Func_call double_lowest_def double_max_def)

theorem appendFunc_never_rejects_witness:
  "map_ordered (funcs example_piecewise)
   \<and> appendFunc 1 (Polynomial_Func (Constant 7)) example_piecewise = example_piecewise
   \<and> map_ordered (funcs (appendFunc (1 / 2) (Polynomial_Func (Constant 7)) example_piecewise))
   \<and> fst ` set (funcs (appendFunc (1 / 2) (Polynomial_Func (Constant 7)) example_piecewise))
       = {1 / 2, 1, 2}"
proof -
  have ord: "map_ordered (funcs example_piecewise)"
    by (simp add: example_piecewise_funcs map_ordered_def)
  show ?thesis
    using ord appendFunc_never_rejects [OF ord, of 1 "Polynomial_Func (Constant 7)"]
      appendFunc_never_rejects [OF ord, of "1 / 2" "Polynomial_Func (Constant 7)"]
    by (simp add: example_piecewise_funcs insert_commute)
qed

section \<open>CentroidalManagerDdpZmp: reset and warm start\<close>

lemma reset_result:
  assumes q: "double_div (horizonDuration (config (base m0))) (horizonDt (config (base m0)))
              = Some q"
    and fits: "int_min \<le> trunc_to_zero q" "trunc_to_zero q \<le> int_max"
  shows "reset double_div base m0 =
     Inr ((base m0)\<lparr>ddp := Some
        \<lparr>ddp_mass = robotMass (base m0), ddp_horizon_dt = horizonDt (config (base m0)),
         horizon_steps = trunc_to_zero q,
         max_iter = ddpMaxIter (config (base m0)), controlData_u_list = []\<rparr>\<rparr>)"
  using assms
  by (simp add: reset_def Let_def double_to_int_def DdpZmp_new_def)

lemma reset_Inr_solver:
  assumes "reset double_div base m0 = Inr m1"
  shows "\<exists>d q. ddp m1 = Some d \<and> controlData_u_list d = []
           \<and> double_div (horizonDuration (config (base m0))) (horizonDt (config (base m0)))
              = Some q
           \<and> horizon_steps d = trunc_to_zero q"
  using assms
  by (auto simp: reset_def Let_def double_to_int_def DdpZmp_new_def
      split: if_splits sum.splits option.splits)

text \<open>
  C8, as amended. \<open>reset\<close> does not validate the horizon length: whenever the
  double quotient of horizon duration and time step converts to an \<open>int\<close>,
  \<open>reset\<close> succeeds and builds a solver whose step count is that quotient rounded
  toward zero (its floor when the quotient is not negative), with an empty control
  sequence and the configured iteration bound.
\<close>

theorem reset_no_horizon_check:
  assumes q: "double_div (horizonDuration (config (base m0))) (horizonDt (config (base m0)))
              = Some q"
    and fits: "int_min \<le> trunc_to_zero q" "trunc_to_zero q \<le> int_max"
  shows "reset double_div base m0 =
     Inr ((base m0)\<lparr>ddp := Some
        \<lparr>ddp_mass = robotMass (base m0), ddp_horizon_dt = horizonDt (config (base m0)),
         horizon_steps = trunc_to_zero q,
         max_iter = ddpMaxIter (config (base m0)), controlData_u_list = []\<rparr>\<rparr>)
    \<and> (0 \<le> q \<longrightarrow> trunc_to_zero q = \<lfloor>q\<rfloor>)"
  using reset_result[of double_div base m0 q] assms by (simp add: trunc_to_zero_def)

theorem reset_no_horizon_check_witness:
  "exact_quotient (horizonDuration (config (example_manager 1 (1 / 4))))
       (horizonDt (config (example_manager 1 (1 / 4)))) = Some 4
   \<and> int_min \<le> trunc_to_zero 4
   \<and> trunc_to_zero 4 \<le> int_max
   \<and> reset exact_quotient (\<lambda>m. m) (example_manager 1 (1 / 4))
       = Inr ((example_manager 1 (1 / 4))\<lparr>ddp := Some (example_solver 4 [])\<rparr>)"
  using reset_no_horizon_check [of exact_quotient "\<lambda>m. m" "example_manager 1 (1 / 4)" 4]
  by (simp add: exact_quotient_def example_manager_def example_solver_def trunc_to_zero_def
      int_min_def int_max_def)

text \<open>
  C8 as stated fails: with a horizon duration of 0, or shorter than the time step,
  \<open>reset\<close> returns a manager whose solver has 0 steps; with a negative duration
  the step count is negative.
\<close>

theorem reset_rejects_empty_horizon_counterexample:
  "reset exact_quotient (\<lambda>m. m) (example_manager 0 (1 / 4))
     = Inr ((example_manager 0 (1 / 4))\<lparr>ddp := Some (example_solver 0 [])\<rparr>)
   \<and> reset exact_quotient (\<lambda>m. m) (example_manager (1 / 8) (1 / 4))
     = Inr ((example_manager (1 / 8) (1 / 4))\<lparr>ddp := Some (example_solver 0 [])\<rparr>)
   \<and> reset exact_quotient (\<lambda>m. m) (example_manager (- 1) (1 / 4))
     = Inr ((example_manager (- 1) (1 / 4))\<lparr>ddp := Some (example_solver (- 4) [])\<rparr>)"
  by (simp add: reset_def Let_def exact_quotient_def double_to_int_def DdpZmp_new_def
      example_manager_def example_solver_def trunc_to_zero_def int_min_def int_max_def)

text \<open>
  C2. In \<open>runMpc\<close>, the control sequence passed to \<open>planOnce\<close> is the solver's
  previous sequence when its length equals \<open>horizon_steps\<close>; otherwise it has
  \<open>horizon_steps\<close> entries, each with the x and y of the current CoM and the
  force \<open>robotMass * g\<close>. After \<open>reset\<close> the solver's sequence is empty, and the
  first call passes the nominal sequence.
\<close>

theorem runMpc_warm_start:
  assumes d: "ddp m = Some d"
  shows "(int (length (controlData_u_list d)) = horizon_steps d \<longrightarrow>
            runMpc_initialParam m
            = Inr \<lparr>pos = mpcCom m, vel = mpcComVel m, u_list = controlData_u_list d\<rparr>)
       \<and> (int (length (controlData_u_list d)) \<noteq> horizon_steps d \<and> 0 \<le> horizon_steps d \<longrightarrow>
            runMpc_initialParam m
            = Inr \<lparr>pos = mpcCom m, vel = mpcComVel m,
                   u_list = replicate (nat (horizon_steps d))
                     (vec_x (mpcCom m), vec_y (mpcCom m), robotMass m * constants_g)\<rparr>)
       \<and> (int (length (controlData_u_list d)) \<noteq> horizon_steps d \<and> horizon_steps d < 0 \<longrightarrow>
            runMpc_initialParam m = Inl LengthError)
       \<and> (\<forall>ip. runMpc_initialParam m = Inr ip
                \<and> int (length (controlData_u_list d)) \<noteq> horizon_steps d \<longrightarrow>
            int (length (u_list ip)) = horizon_steps d
          \<and> (\<forall>u \<in> set (u_list ip).
                u = (vec_x (mpcCom m), vec_y (mpcCom m), robotMass m * constants_g)))
       \<and> (\<forall>double_div base m0 m1 ip. reset double_div base m0 = Inr m1 \<and> ddp m1 = Some d
                \<and> runMpc_initialParam m = Inr ip \<longrightarrow>
            u_list ip = replicate (nat (horizon_steps d))
                     (vec_x (mpcCom m), vec_y (mpcCom m), robotMass m * constants_g))
       \<and> (\<forall>planOnce calcRefZmp ctl_t ip. runMpc_initialParam m = Inr ip \<longrightarrow>
            runMpc planOnce calcRefZmp ctl_t m
            = (case planOnce d (calcRefData calcRefZmp m) ip ctl_t of
                 (plannedData, d') \<Rightarrow>
                   Inr (m\<lparr>ddp := Some d',
                          plannedZmp := (fst (zmp plannedData), snd (zmp plannedData), 0),
                          plannedForceZ := force_z plannedData\<rparr>)))"
proof (intro conjI allI impI)
  assume "int (length (controlData_u_list d)) = horizon_steps d"
  then show "runMpc_initialParam m
            = Inr \<lparr>pos = mpcCom m, vel = mpcComVel m, u_list = controlData_u_list d\<rparr>"
    by (simp add: runMpc_initialParam_def d)
next
  assume "int (length (controlData_u_list d)) \<noteq> horizon_steps d \<and> 0 \<le> horizon_steps d"
  then show "runMpc_initialParam m
            = Inr \<lparr>pos = mpcCom m, vel = mpcComVel m,
                   u_list = replicate (nat (horizon_steps d))
                     (vec_x (mpcCom m), vec_y (mpcCom m), robotMass m * constants_g)\<rparr>"
    by (simp add: runMpc_initialParam_def d vector_assign_def)
next
  assume "int (length (controlData_u_list d)) \<noteq> horizon_steps d \<and> horizon_steps d < 0"
  then show "runMpc_initialParam m = Inl LengthError"
    by (simp add: runMpc_initialParam_def d vector_assign_def)
next
  fix ip
  assume h: "runMpc_initialParam m = Inr ip
             \<and> int (length (controlData_u_list d)) \<noteq> horizon_steps d"
  then have ip: "0 \<le> horizon_steps d \<and> u_list ip = replicate (nat (horizon_steps d))
                     (vec_x (mpcCom m), vec_y (mpcCom m), robotMass m * constants_g)"
    by (auto simp: runMpc_initialParam_def d vector_assign_def split: if_splits)
  then show "int (length (u_list ip)) = horizon_steps d" by simp
  from ip show "\<forall>u \<in> set (u_list ip).
                u = (vec_x (mpcCom m), vec_y (mpcCom m), robotMass m * constants_g)"
    by simp
next
  fix double_div base m0 m1 ip
  assume h: "reset double_div base m0 = Inr m1 \<and> ddp m1 = Some d
             \<and> runMpc_initialParam m = Inr ip"
  with reset_Inr_solver[of double_div base m0 m1] have empty: "controlData_u_list d = []"
    by auto
  from h have "runMpc_initialParam m = Inr ip" by simp
  then show "u_list ip = replicate (nat (horizon_steps d))
                     (vec_x (mpcCom m), vec_y (mpcCom m), robotMass m * constants_g)"
    by (auto simp: runMpc_initialParam_def d vector_assign_def empty split: if_splits)
next
  fix planOnce calcRefZmp ctl_t ip
  assume "runMpc_initialParam m = Inr ip"
  then show "runMpc planOnce calcRefZmp ctl_t m
            = (case planOnce d (calcRefData calcRefZmp m) ip ctl_t of
                 (plannedData, d') \<Rightarrow>
                   Inr (m\<lparr>ddp := Some d',
                          plannedZmp := (fst (zmp plannedData), snd (zmp plannedData), 0),
                          plannedForceZ := force_z plannedData\<rparr>))"
    by (simp add: runMpc_def d)
qed

theorem runMpc_warm_start_witness:
  "ddp ((example_manager 1 (1 / 4))\<lparr>ddp := Some (example_solver 4 [])\<rparr>)
     = Some (example_solver 4 [])
   \<and> runMpc_initialParam ((example_manager 1 (1 / 4))\<lparr>ddp := Some (example_solver 4 [])\<rparr>)
     = Inr \<lparr>pos = (1 / 10, 1 / 5, 4 / 5), vel = (0, 0, 0),
            u_list = replicate 4 (1 / 10, 1 / 5, 40 * constants_g)\<rparr>
   \<and> ddp ((example_manager 1 (1 / 4))\<lparr>ddp := Some (example_solver 2 [(0, 0, 1), (0, 0, 2)])\<rparr>)
     = Some (example_solver 2 [(0, 0, 1), (0, 0, 2)])
   \<and> runMpc_initialParam
        ((example_manager 1 (1 / 4))\<lparr>ddp := Some (example_solver 2 [(0, 0, 1), (0, 0, 2)])\<rparr>)
     = Inr \<lparr>pos = (1 / 10, 1 / 5, 4 / 5), vel = (0, 0, 0), u_list = [(0, 0, 1), (0, 0, 2)]\<rparr>"
proof -
  let ?m1 = "(example_manager 1 (1 / 4))\<lparr>ddp := Some (example_solver 4 [])\<rparr>"
  let ?m2 = "(example_manager 1 (1 / 4))\<lparr>ddp := Some (example_solver 2 [(0, 0, 1), (0, 0, 2)])\<rparr>"
  have d1: "ddp ?m1 = Some (example_solver 4 [])" by simp
  have d2: "ddp ?m2 = Some (example_solver 2 [(0, 0, 1), (0, 0, 2)])" by simp
  have a: "runMpc_initialParam ?m1
     = Inr \<lparr>pos = (1 / 10, 1 / 5, 4 / 5), vel = (0, 0, 0),
            u_list = replicate 4 (1 / 10, 1 / 5, 40 * constants_g)\<rparr>"
    using runMpc_warm_start [OF d1, THEN conjunct2, THEN conjunct1]
    by (simp add: example_manager_def example_solver_def vec_x_def vec_y_def)
  have b: "runMpc_initialParam ?m2
     = Inr \<lparr>pos = (1 / 10, 1 / 5, 4 / 5), vel = (0, 0, 0), u_list = [(0, 0, 1), (0, 0, 2)]\<rparr>"
    using runMpc_warm_start [OF d2, THEN conjunct1]
    by (simp add: example_manager_def example_solver_def)
  from d1 d2 a b show ?thesis by (simp only: simp_thms)
qed

end
